theory Spec2Isabelle
  imports Main "HOL-Library.Word"
begin

section \<open>pyPS4Controller: the controller snapshot and its event pipeline\<close>

text \<open>
  A shallow embedding of \<^verbatim>\<open>src/pyPS4Controller/controller.py\<close>: the class
  \<^verbatim>\<open>ControllerState\<close>, and of the class \<^verbatim>\<open>Controller\<close> the methods
  \<^verbatim>\<open>__init__\<close>, \<^verbatim>\<open>listen\<close> (with its local functions), \<^verbatim>\<open>_unpack_event\<close>,
  \<^verbatim>\<open>_handle_event\<close> and \<^verbatim>\<open>stop_listening\<close>.

  The event mapping class (\<^verbatim>\<open>event_mapping.Mapping3Bh2b\<close> by default) is not part of the
  sources; the controller receives it as \<^verbatim>\<open>event_definition\<close>. It is a parameter of the
  model as well: any function from the constructor's arguments to an event object.
\<close>

subsection \<open>ControllerState\<close>

text \<open>
  The fields of \<^verbatim>\<open>ControllerState\<close>, in the order of \<^verbatim>\<open>__init__\<close>. Python's integers
  are unbounded, hence \<^typ>\<open>int\<close>.
\<close>

record ControllerState =
  x_button :: bool
  triangle_button :: bool
  circle_button :: bool
  square_button :: bool
  L1_button :: bool
  L2_button :: int
  L3_button :: bool
  R1_button :: bool
  R2_button :: int
  R3_button :: bool
  up_arrow :: bool
  down_arrow :: bool
  left_arrow :: bool
  right_arrow :: bool
  L3_x_axis :: int
  L3_y_axis :: int
  R3_x_axis :: int
  R3_y_axis :: int
  share_button :: bool
  options_button :: bool
  playstation_button :: bool

text \<open>\<^verbatim>\<open>ControllerState.__init__\<close>.\<close>

definition ControllerState_init :: ControllerState where
  "ControllerState_init =
     \<lparr> x_button = False, triangle_button = False, circle_button = False,
       square_button = False,
       L1_button = False, L2_button = - 32767, L3_button = False,
       R1_button = False, R2_button = - 32767, R3_button = False,
       up_arrow = False, down_arrow = False, left_arrow = False, right_arrow = False,
       L3_x_axis = 0, L3_y_axis = 0,
       R3_x_axis = 0, R3_y_axis = 0,
       share_button = False, options_button = False, playstation_button = False \<rparr>"

subsection \<open>The event object\<close>

text \<open>
  \<^verbatim>\<open>_handle_event\<close> asks the event object a chain of boolean questions and reads its
  attribute \<^verbatim>\<open>value\<close>. The questions asked at the top level of the chain are the
  constructors of \<open>query\<close>, in the order of the chain; those asked inside the two
  joystick branches are the constructors of \<open>stick_query\<close>.
\<close>

datatype query =
    R3_event | L3_event
  | circle_pressed | circle_released
  | x_pressed | x_released
  | triangle_pressed | triangle_released
  | square_pressed | square_released
  | L1_pressed | L1_released
  | L2_pressed | L2_released
  | R1_pressed | R1_released
  | R2_pressed | R2_released
  | options_pressed | options_released
  | left_right_arrow_released | up_down_arrow_released
  | left_arrow_pressed | right_arrow_pressed
  | up_arrow_pressed | down_arrow_pressed
  | playstation_button_pressed | playstation_button_released
  | share_pressed | share_released
  | R3_pressed | R3_released
  | L3_pressed | L3_released

datatype stick_query =
    R3_y_at_rest | R3_x_at_rest | R3_right | R3_left | R3_up | R3_down
  | L3_y_at_rest | L3_x_at_rest | L3_up | L3_down | L3_left | L3_right

text \<open>
  An event object: its attribute \<^verbatim>\<open>value\<close> (here \<open>event_value\<close>) and the answers of its
  methods: \<^verbatim>\<open>event.circle_pressed()\<close> is \<open>holds event circle_pressed\<close>, and
  \<^verbatim>\<open>event.R3_up()\<close> is \<open>stick event R3_up\<close>. The methods are taken to be pure and to
  return booleans.
\<close>

record event =
  event_value :: int
  holds :: "query \<Rightarrow> bool"
  stick :: "stick_query \<Rightarrow> bool"

text \<open>
  The constructor call of \<^verbatim>\<open>_handle_event\<close> passes \<^verbatim>\<open>button_id\<close>, \<^verbatim>\<open>button_type\<close>,
  \<^verbatim>\<open>value\<close>, \<^verbatim>\<open>connecting_using_ds4drv\<close>, \<^verbatim>\<open>overflow\<close> and \<^verbatim>\<open>debug\<close>; \<^verbatim>\<open>overflow\<close> is
  the tail of the unpacked tuple, three numbers under the default layout.
\<close>

type_synonym event_definition =
  "int \<Rightarrow> int \<Rightarrow> int \<Rightarrow> bool \<Rightarrow> int \<times> int \<times> int \<Rightarrow> bool \<Rightarrow> event"

subsection \<open>Controller\<close>

text \<open>
  The mutable attributes of \<^verbatim>\<open>Controller\<close> that \<^verbatim>\<open>listen\<close> and \<^verbatim>\<open>_handle_event\<close> read
  or write. \<open>state_queue\<close> is \<^verbatim>\<open>_state_queue\<close>, an unbounded FIFO queue, as the list of
  its items, oldest first. The default event format \<^verbatim>\<open>"3Bh2b"\<close> is fixed (see
  \<open>unpack_event\<close>); \<open>event_size\<close> is \<^verbatim>\<open>struct.calcsize\<close> of it. The attribute
  \<^verbatim>\<open>event_definition\<close> is passed to the functions that use it, and what the file system
  answers for the path \<^verbatim>\<open>interface\<close> is the \<open>world\<close> below.
\<close>

record controller =
  stop :: bool
  is_connected :: bool
  debug :: bool
  event_size :: nat
  event_history :: "string list"
  state :: ControllerState
  state_queue :: "bool list"

text \<open>\<^verbatim>\<open>Controller.__init__\<close> with the default event format.\<close>

definition Controller_init :: controller where
  "Controller_init =
     \<lparr> stop = False, is_connected = False, debug = False, event_size = 8,
       event_history = [], state = ControllerState_init, state_queue = [] \<rparr>"

subsection \<open>\<^verbatim>\<open>_handle_event\<close>\<close>

text \<open>
  The two statements that the branches are made of: \<^verbatim>\<open>self.event_history.append(l)\<close> and
  an assignment to a field of \<^verbatim>\<open>self.state\<close>.
\<close>

definition append_history :: "string \<Rightarrow> controller \<Rightarrow> controller" where
  "append_history l c = c\<lparr>event_history := event_history c @ [l]\<rparr>"

definition set_state :: "(ControllerState \<Rightarrow> ControllerState) \<Rightarrow> controller \<Rightarrow> controller" where
  "set_state f c = c\<lparr>state := f (state c)\<rparr>"

text \<open>
  The \<^verbatim>\<open>if\<close>/\<^verbatim>\<open>elif\<close> chain of \<^verbatim>\<open>_handle_event\<close>, branch by branch in the order of the
  source. A branch without a final \<^verbatim>\<open>else\<close> leaves the controller as it is.
\<close>

definition apply_event :: "event \<Rightarrow> controller \<Rightarrow> controller" where
  "apply_event e c =
    (if holds e R3_event then
       (let c = append_history ''right_joystick'' c in
        if stick e R3_y_at_rest then set_state (\<lambda>s. s\<lparr>R3_y_axis := 0\<rparr>) c
        else if stick e R3_x_at_rest then set_state (\<lambda>s. s\<lparr>R3_x_axis := 0\<rparr>) c
        else if stick e R3_right then set_state (\<lambda>s. s\<lparr>R3_x_axis := event_value e\<rparr>) c
        else if stick e R3_left then set_state (\<lambda>s. s\<lparr>R3_x_axis := event_value e\<rparr>) c
        else if stick e R3_up then set_state (\<lambda>s. s\<lparr>R3_y_axis := event_value e\<rparr>) c
        else if stick e R3_down then set_state (\<lambda>s. s\<lparr>R3_y_axis := event_value e\<rparr>) c
        else c)
     else if holds e L3_event then
       (let c = append_history ''left_joystick'' c in
        if stick e L3_y_at_rest then set_state (\<lambda>s. s\<lparr>L3_y_axis := 0\<rparr>) c
        else if stick e L3_x_at_rest then set_state (\<lambda>s. s\<lparr>L3_x_axis := 0\<rparr>) c
        else if stick e L3_up then set_state (\<lambda>s. s\<lparr>L3_y_axis := event_value e\<rparr>) c
        else if stick e L3_down then set_state (\<lambda>s. s\<lparr>L3_y_axis := event_value e\<rparr>) c
        else if stick e L3_left then set_state (\<lambda>s. s\<lparr>L3_x_axis := event_value e\<rparr>) c
        else if stick e L3_right then set_state (\<lambda>s. s\<lparr>L3_x_axis := event_value e\<rparr>) c
        else c)
     else if holds e circle_pressed then
       set_state (\<lambda>s. s\<lparr>circle_button := True\<rparr>) (append_history ''circle'' c)
     else if holds e circle_released then
       set_state (\<lambda>s. s\<lparr>circle_button := False\<rparr>) c
     else if holds e x_pressed then
       set_state (\<lambda>s. s\<lparr>x_button := True\<rparr>) (append_history ''x'' c)
     else if holds e x_released then
       set_state (\<lambda>s. s\<lparr>x_button := False\<rparr>) c
     else if holds e triangle_pressed then
       set_state (\<lambda>s. s\<lparr>triangle_button := True\<rparr>) (append_history ''triangle'' c)
     else if holds e triangle_released then
       set_state (\<lambda>s. s\<lparr>triangle_button := False\<rparr>) c
     else if holds e square_pressed then
       set_state (\<lambda>s. s\<lparr>square_button := True\<rparr>) (append_history ''square'' c)
     else if holds e square_released then
       set_state (\<lambda>s. s\<lparr>square_button := False\<rparr>) c
     else if holds e L1_pressed then
       set_state (\<lambda>s. s\<lparr>L1_button := True\<rparr>) (append_history ''L1'' c)
     else if holds e L1_released then
       set_state (\<lambda>s. s\<lparr>L1_button := False\<rparr>) c
     else if holds e L2_pressed then
       set_state (\<lambda>s. s\<lparr>L2_button := event_value e\<rparr>) (append_history ''L2'' c)
     else if holds e L2_released then
       set_state (\<lambda>s. s\<lparr>L2_button := - 32767\<rparr>) c
     else if holds e R1_pressed then
       set_state (\<lambda>s. s\<lparr>R1_button := True\<rparr>) (append_history ''R1'' c)
     else if holds e R1_released then
       set_state (\<lambda>s. s\<lparr>R1_button := False\<rparr>) c
     else if holds e R2_pressed then
       set_state (\<lambda>s. s\<lparr>R2_button := event_value e\<rparr>) (append_history ''R2'' c)
     else if holds e R2_released then
       set_state (\<lambda>s. s\<lparr>R2_button := - 32767\<rparr>) c
     else if holds e options_pressed then
       set_state (\<lambda>s. s\<lparr>options_button := True\<rparr>) (append_history ''options'' c)
     else if holds e options_released then
       set_state (\<lambda>s. s\<lparr>options_button := False\<rparr>) c
     else if holds e left_right_arrow_released then
       set_state (\<lambda>s. s\<lparr>right_arrow := False\<rparr>) (set_state (\<lambda>s. s\<lparr>left_arrow := False\<rparr>) c)
     else if holds e up_down_arrow_released then
       set_state (\<lambda>s. s\<lparr>down_arrow := False\<rparr>) (set_state (\<lambda>s. s\<lparr>up_arrow := False\<rparr>) c)
     else if holds e left_arrow_pressed then
       set_state (\<lambda>s. s\<lparr>left_arrow := True\<rparr>) (append_history ''left'' c)
     else if holds e right_arrow_pressed then
       set_state (\<lambda>s. s\<lparr>right_arrow := True\<rparr>) (append_history ''right'' c)
     else if holds e up_arrow_pressed then
       set_state (\<lambda>s. s\<lparr>up_arrow := True\<rparr>) (append_history ''up'' c)
     else if holds e down_arrow_pressed then
       set_state (\<lambda>s. s\<lparr>down_arrow := True\<rparr>) (append_history ''down'' c)
     else if holds e playstation_button_pressed then
       set_state (\<lambda>s. s\<lparr>playstation_button := True\<rparr>) (append_history ''ps'' c)
     else if holds e playstation_button_released then
       set_state (\<lambda>s. s\<lparr>playstation_button := False\<rparr>) c
     else if holds e share_pressed then
       set_state (\<lambda>s. s\<lparr>share_button := True\<rparr>) (append_history ''share'' c)
     else if holds e share_released then
       set_state (\<lambda>s. s\<lparr>share_button := False\<rparr>) c
     else if holds e R3_pressed then
       set_state (\<lambda>s. s\<lparr>R3_button := True\<rparr>) (append_history ''R3'' c)
     else if holds e R3_released then
       set_state (\<lambda>s. s\<lparr>R3_button := False\<rparr>) c
     else if holds e L3_pressed then
       set_state (\<lambda>s. s\<lparr>L3_button := True\<rparr>) (append_history ''L3'' c)
     else if holds e L3_released then
       set_state (\<lambda>s. s\<lparr>L3_button := False\<rparr>) c
     else c)"

text \<open>
  \<^verbatim>\<open>_handle_event\<close> itself: it builds the event object (with
  \<^verbatim>\<open>connecting_using_ds4drv=False\<close>) and runs the chain on it.
\<close>

definition handle_event ::
  "event_definition \<Rightarrow> int \<Rightarrow> int \<Rightarrow> int \<Rightarrow> int \<times> int \<times> int \<Rightarrow> controller \<Rightarrow> controller" where
  "handle_event ed button_id button_type val overflow c =
     apply_event (ed button_id button_type val False overflow (debug c)) c"

subsection \<open>\<^verbatim>\<open>_unpack_event\<close>\<close>

type_synonym byte = "8 word"

text \<open>
  What can be raised inside \<^verbatim>\<open>listen\<close>: \<^verbatim>\<open>struct.error\<close> by \<^verbatim>\<open>struct.unpack\<close>,
  \<^verbatim>\<open>OSError\<close> by \<^verbatim>\<open>open\<close> and \<^verbatim>\<open>read\<close>, and \<^verbatim>\<open>KeyboardInterrupt\<close> while the
  read blocks.
\<close>

datatype error = struct_error | OSError | KeyboardInterrupt

text \<open>
  \<^verbatim>\<open>struct.unpack("3Bh2b", event)\<close>: the buffer must have exactly
  \<^verbatim>\<open>calcsize("3Bh2b") = 8\<close> bytes, otherwise \<^verbatim>\<open>struct.error\<close> is raised. In native
  mode the layout is three unsigned bytes, one padding byte that aligns the short, the
  signed 16-bit short (least significant byte first, as on the little-endian machines the
  device driver runs on) and two signed bytes: a tuple of six numbers.
  \<^verbatim>\<open>_unpack_event\<close> returns \<^verbatim>\<open>(__event[3:], __event[2], __event[1], __event[0])\<close>, which
  \<^verbatim>\<open>listen\<close> binds to \<^verbatim>\<open>(overflow, value, button_type, button_id)\<close>.
\<close>

definition int16_le :: "byte \<Rightarrow> byte \<Rightarrow> int" where
  "int16_le lo hi =
     (let u = uint lo + 256 * uint hi in if u < 32768 then u else u - 65536)"

definition unpack_event :: "byte list \<Rightarrow> error + ((int \<times> int \<times> int) \<times> int \<times> int \<times> int)" where
  "unpack_event ev =
     (case ev of
        [B0, B1, B2, pad, h0, h1, b0, b1] \<Rightarrow>
          Inr ((int16_le h0 h1, sint b0, sint b1), uint B2, uint B1, uint B0)
      | _ \<Rightarrow> Inl struct_error)"

subsection \<open>The world around \<^verbatim>\<open>listen\<close>\<close>

text \<open>
  \<^verbatim>\<open>listen\<close> talks to the file system: it asks whether the interface path exists, sleeps,
  opens the device file and reads from it. The answers are the parameter \<open>world\<close>:
  \<open>path_exists i\<close> is the answer of the \<open>i\<close>-th call of \<^verbatim>\<open>path.exists\<close> (counted from 0),
  \<open>open_ok\<close> tells whether \<^verbatim>\<open>open\<close> succeeds (it raises \<^verbatim>\<open>OSError\<close> otherwise), and
  \<open>reads\<close> lists what the successive calls of \<^verbatim>\<open>_file.read\<close> deliver: bytes (of which
  \<^verbatim>\<open>read(n)\<close> returns at most \<open>n\<close>), a \<^verbatim>\<open>KeyboardInterrupt\<close>, or an \<^verbatim>\<open>OSError\<close>. Past the
  end of the list the stream is at its end and every read returns no bytes.
\<close>

datatype read_result = Data "byte list" | Interrupt | ReadError

record world =
  path_exists :: "nat \<Rightarrow> bool"
  open_ok :: bool
  reads :: "read_result list"

text \<open>
  What the code does to the world and to the queue is recorded, in order, as a list of
  effects: one entry per call of \<^verbatim>\<open>path.exists\<close>, \<^verbatim>\<open>sleep(1)\<close>, \<^verbatim>\<open>open\<close>,
  \<^verbatim>\<open>_file.read\<close>, \<^verbatim>\<open>_handle_event\<close>, \<^verbatim>\<open>_state_queue.put\<close>, and for the closing of the
  file when the \<^verbatim>\<open>with\<close> block is left.
\<close>

datatype effect = PathExists | Sleep | Open | Read | HandleEvent | QueuePut | Close

datatype outcome = Returned | Raised error

subsection \<open>\<^verbatim>\<open>listen\<close>\<close>

definition on_connect_callback :: "controller \<Rightarrow> controller" where
  "on_connect_callback c = c\<lparr>is_connected := True\<rparr>"

definition on_disconnect_callback :: "controller \<Rightarrow> controller" where
  "on_disconnect_callback c = c\<lparr>is_connected := False\<rparr>"

text \<open>
  \<^verbatim>\<open>wait_for_interface\<close>: the loop \<^verbatim>\<open>for _ in range(timeout)\<close>, with the number of the
  next call of \<^verbatim>\<open>path.exists\<close> and the number of iterations left. \<^verbatim>\<open>range(timeout)\<close> is
  empty when \<^verbatim>\<open>timeout\<close> is not positive.
\<close>

fun wait_loop :: "(nat \<Rightarrow> bool) \<Rightarrow> nat \<Rightarrow> nat \<Rightarrow> controller \<Rightarrow> bool \<times> controller \<times> effect list" where
  "wait_loop ex i 0 c = (False, on_disconnect_callback c, [])"
| "wait_loop ex i (Suc n) c =
     (if ex i then (True, on_connect_callback c, [PathExists])
      else (let (found, c', t) = wait_loop ex (Suc i) n c
            in (found, c', PathExists # Sleep # t)))"

definition wait_for_interface :: "int \<Rightarrow> world \<Rightarrow> controller \<Rightarrow> bool \<times> controller \<times> effect list" where
  "wait_for_interface timeout w c = wait_loop (path_exists w) 0 (nat timeout) c"

text \<open>
  The read loop: \<^verbatim>\<open>event = _file.read(self.event_size)\<close>, then
  \<^verbatim>\<open>while not self.stop and event:\<close> with the next read at the end of the body. Each
  round of the model starts with the read; an exception ends the loop with the controller
  as it is at that moment.
\<close>

definition queue_put :: "controller \<Rightarrow> controller" where
  "queue_put c = c\<lparr>state_queue := state_queue c @ [True]\<rparr>"

fun read_loop :: "event_definition \<Rightarrow> read_result list \<Rightarrow> controller \<Rightarrow> outcome \<times> controller \<times> effect list" where
  "read_loop ed [] c = (Returned, c, [Read])"
| "read_loop ed (Interrupt # rs) c = (Raised KeyboardInterrupt, c, [Read])"
| "read_loop ed (ReadError # rs) c = (Raised OSError, c, [Read])"
| "read_loop ed (Data bs # rs) c =
     (let ev = take (event_size c) bs in
      if stop c \<or> ev = [] then (Returned, c, [Read])
      else (case unpack_event ev of
              Inl err \<Rightarrow> (Raised err, c, [Read])
            | Inr (overflow, val, button_type, button_id) \<Rightarrow>
                (let c1 = handle_event ed button_id button_type val overflow c;
                     c2 = queue_put c1;
                     (out, c', t) = read_loop ed rs c2
                 in (out, c', Read # HandleEvent # QueuePut # t))))"

text \<open>
  \<^verbatim>\<open>stop_listening\<close> sets the stop flag and joins the listening thread, if there is one;
  the join changes nothing in the controller.
\<close>

definition stop_listening :: "controller \<Rightarrow> controller" where
  "stop_listening c = c\<lparr>stop := True\<rparr>"

text \<open>
  \<^verbatim>\<open>listen\<close>: it returns at once when \<^verbatim>\<open>wait_for_interface\<close> fails. The \<^verbatim>\<open>with\<close> block
  closes the file however the loop ends; the only handler is the one for
  \<^verbatim>\<open>KeyboardInterrupt\<close>, every other exception leaves \<^verbatim>\<open>listen\<close>.
\<close>

definition listen :: "event_definition \<Rightarrow> int \<Rightarrow> world \<Rightarrow> controller \<Rightarrow> outcome \<times> controller \<times> effect list" where
  "listen ed timeout w c =
     (case wait_for_interface timeout w c of
        (False, c1, t1) \<Rightarrow> (Returned, c1, t1)
      | (True, c1, t1) \<Rightarrow>
          if \<not> open_ok w then (Raised OSError, c1, t1 @ [Open])
          else (case read_loop ed (reads w) c1 of
                  (Raised KeyboardInterrupt, c2, t2) \<Rightarrow>
                    (Returned, stop_listening (on_disconnect_callback c2), t1 @ Open # t2 @ [Close])
                | (out, c2, t2) \<Rightarrow> (out, c2, t1 @ Open # t2 @ [Close])))"

subsection \<open>Which branch an event takes\<close>

text \<open>
  The questions of the chain in \<^verbatim>\<open>_handle_event\<close>, in the order in which they are asked.
  An event \<^emph>\<open>decodes to\<close> the first question it answers with yes: that is the branch the
  chain takes, whatever the event answers to the later questions.
\<close>

definition dispatch_order :: "query list" where
  "dispatch_order =
     [R3_event, L3_event,
      circle_pressed, circle_released, x_pressed, x_released,
      triangle_pressed, triangle_released, square_pressed, square_released,
      L1_pressed, L1_released, L2_pressed, L2_released,
      R1_pressed, R1_released, R2_pressed, R2_released,
      options_pressed, options_released,
      left_right_arrow_released, up_down_arrow_released,
      left_arrow_pressed, right_arrow_pressed, up_arrow_pressed, down_arrow_pressed,
      playstation_button_pressed, playstation_button_released,
      share_pressed, share_released,
      R3_pressed, R3_released, L3_pressed, L3_released]"

definition dispatch :: "event \<Rightarrow> query option" where
  "dispatch e = find (holds e) dispatch_order"

text \<open>
  The questions that ask for a release. None of their branches appends to the history.
\<close>

definition release_queries :: "query list" where
  "release_queries =
     [circle_released, x_released, triangle_released, square_released,
      L1_released, L2_released, R1_released, R2_released, options_released,
      left_right_arrow_released, up_down_arrow_released,
      playstation_button_released, share_released, R3_released, L3_released]"

text \<open>
  The questions asked inside the two joystick branches, in the order of the source; the
  other branches ask none. A joystick branch assigns an axis only when the event answers
  yes to one of its inner questions; every other branch assigns a field whenever it is
  taken.
\<close>

fun stick_questions :: "query \<Rightarrow> stick_query list" where
  "stick_questions R3_event = [R3_y_at_rest, R3_x_at_rest, R3_right, R3_left, R3_up, R3_down]"
| "stick_questions L3_event = [L3_y_at_rest, L3_x_at_rest, L3_up, L3_down, L3_left, L3_right]"
| "stick_questions _ = []"

definition assigns_field :: "event \<Rightarrow> query \<Rightarrow> bool" where
  "assigns_field e q =
     (if q = R3_event \<or> q = L3_event then list_ex (stick e) (stick_questions q) else True)"

text \<open>
  The digital buttons that have a release question of their own, each with the flag of
  \<^verbatim>\<open>ControllerState\<close> that its two branches assign. The four arrow flags have none: the
  chain asks no \<^verbatim>\<open>left_arrow_released\<close>, only the two combined questions.
\<close>

fun released_flag :: "query \<Rightarrow> (ControllerState \<Rightarrow> bool) option" where
  "released_flag circle_released = Some circle_button"
| "released_flag x_released = Some x_button"
| "released_flag triangle_released = Some triangle_button"
| "released_flag square_released = Some square_button"
| "released_flag L1_released = Some L1_button"
| "released_flag R1_released = Some R1_button"
| "released_flag options_released = Some options_button"
| "released_flag playstation_button_released = Some playstation_button"
| "released_flag share_released = Some share_button"
| "released_flag R3_released = Some R3_button"
| "released_flag L3_released = Some L3_button"
| "released_flag _ = None"

subsection \<open>Dispatch categories\<close>

text \<open>
  The five categories of controls: the two sticks, the digital buttons, the analog
  triggers and the directional pad. \<open>category_of\<close> sorts the questions of the chain into
  them, \<open>category_labels\<close> the labels that the branches append to the history.
\<close>

datatype category = right_stick | left_stick | digital_buttons | triggers | directional_pad

fun category_of :: "query \<Rightarrow> category" where
  "category_of R3_event = right_stick"
| "category_of L3_event = left_stick"
| "category_of L2_pressed = triggers"
| "category_of L2_released = triggers"
| "category_of R2_pressed = triggers"
| "category_of R2_released = triggers"
| "category_of left_right_arrow_released = directional_pad"
| "category_of up_down_arrow_released = directional_pad"
| "category_of left_arrow_pressed = directional_pad"
| "category_of right_arrow_pressed = directional_pad"
| "category_of up_arrow_pressed = directional_pad"
| "category_of down_arrow_pressed = directional_pad"
| "category_of _ = digital_buttons"

fun category_labels :: "category \<Rightarrow> string list" where
  "category_labels right_stick = [''right_joystick'']"
| "category_labels left_stick = [''left_joystick'']"
| "category_labels digital_buttons =
     [''circle'', ''x'', ''triangle'', ''square'', ''L1'', ''R1'', ''options'', ''ps'',
      ''share'', ''R3'', ''L3'']"
| "category_labels triggers = [''L2'', ''R2'']"
| "category_labels directional_pad = [''left'', ''right'', ''up'', ''down'']"

text \<open>
  The fields of \<^verbatim>\<open>ControllerState\<close> by name, the fields in which two snapshots differ,
  and the fields of each category.
\<close>

datatype field =
    F_x_button | F_triangle_button | F_circle_button | F_square_button
  | F_L1_button | F_L2_button | F_L3_button
  | F_R1_button | F_R2_button | F_R3_button
  | F_up_arrow | F_down_arrow | F_left_arrow | F_right_arrow
  | F_L3_x_axis | F_L3_y_axis | F_R3_x_axis | F_R3_y_axis
  | F_share_button | F_options_button | F_playstation_button

definition changed_fields :: "ControllerState \<Rightarrow> ControllerState \<Rightarrow> field list" where
  "changed_fields s s' =
     (if x_button s = x_button s' then [] else [F_x_button]) @
     (if triangle_button s = triangle_button s' then [] else [F_triangle_button]) @
     (if circle_button s = circle_button s' then [] else [F_circle_button]) @
     (if square_button s = square_button s' then [] else [F_square_button]) @
     (if L1_button s = L1_button s' then [] else [F_L1_button]) @
     (if L2_button s = L2_button s' then [] else [F_L2_button]) @
     (if L3_button s = L3_button s' then [] else [F_L3_button]) @
     (if R1_button s = R1_button s' then [] else [F_R1_button]) @
     (if R2_button s = R2_button s' then [] else [F_R2_button]) @
     (if R3_button s = R3_button s' then [] else [F_R3_button]) @
     (if up_arrow s = up_arrow s' then [] else [F_up_arrow]) @
     (if down_arrow s = down_arrow s' then [] else [F_down_arrow]) @
     (if left_arrow s = left_arrow s' then [] else [F_left_arrow]) @
     (if right_arrow s = right_arrow s' then [] else [F_right_arrow]) @
     (if L3_x_axis s = L3_x_axis s' then [] else [F_L3_x_axis]) @
     (if L3_y_axis s = L3_y_axis s' then [] else [F_L3_y_axis]) @
     (if R3_x_axis s = R3_x_axis s' then [] else [F_R3_x_axis]) @
     (if R3_y_axis s = R3_y_axis s' then [] else [F_R3_y_axis]) @
     (if share_button s = share_button s' then [] else [F_share_button]) @
     (if options_button s = options_button s' then [] else [F_options_button]) @
     (if playstation_button s = playstation_button s' then [] else [F_playstation_button])"

fun category_fields :: "category \<Rightarrow> field list" where
  "category_fields right_stick = [F_R3_x_axis, F_R3_y_axis]"
| "category_fields left_stick = [F_L3_x_axis, F_L3_y_axis]"
| "category_fields digital_buttons =
     [F_circle_button, F_x_button, F_triangle_button, F_square_button, F_L1_button,
      F_R1_button, F_options_button, F_playstation_button, F_share_button, F_R3_button,
      F_L3_button]"
| "category_fields triggers = [F_L2_button, F_R2_button]"
| "category_fields directional_pad = [F_up_arrow, F_down_arrow, F_left_arrow, F_right_arrow]"

subsection \<open>Auxiliary notions and examples\<close>

text \<open>
  The effects of \<open>k\<close> rounds of the read loop, followed by the read that ends it.
\<close>

definition round_effects :: "nat \<Rightarrow> effect list" where
  "round_effects k = concat (replicate k [Read, HandleEvent, QueuePut]) @ [Read]"

text \<open>
  A small event definition for the examples. It only knows two controls: button 1 is
  the circle button and button 2 is the trigger L2, pressed when the value is 1 and
  released when it is 0; the value of the event is the short of the record.
\<close>

definition example_mapping :: event_definition where
  "example_mapping button_id button_type val ds4drv overflow dbg =
     \<lparr> event_value = fst overflow,
       holds = (\<lambda>q. case q of
                  circle_pressed \<Rightarrow> button_id = 1 \<and> val = 1
                | circle_released \<Rightarrow> button_id = 1 \<and> val = 0
                | L2_pressed \<Rightarrow> button_id = 2 \<and> val = 1
                | L2_released \<Rightarrow> button_id = 2 \<and> val = 0
                | _ \<Rightarrow> False),
       stick = (\<lambda>q. False) \<rparr>"

text \<open>
  Four records of eight bytes: circle pressed, circle released, L2 pressed with the
  value 12000 (\<open>0x2EE0\<close>), L2 released. In \<open>example_world\<close> the interface exists from the
  start and the stream delivers these four records and then ends.
\<close>

definition example_records :: "byte list list" where
  "example_records =
     [[1, 0, 1, 0, 0, 0, 0, 0],
      [1, 0, 0, 0, 0, 0, 0, 0],
      [2, 0, 1, 0, 0xE0, 0x2E, 0, 0],
      [2, 0, 0, 0, 0, 0, 0, 0]]"

definition example_world :: world where
  "example_world =
     \<lparr> path_exists = (\<lambda>i. True), open_ok = True, reads = map Data example_records \<rparr>"

text \<open>Event objects that answer yes to exactly one question.\<close>

definition only :: "query \<Rightarrow> int \<Rightarrow> event" where
  "only q v = \<lparr> event_value = v, holds = (\<lambda>p. p = q), stick = (\<lambda>p. False) \<rparr>"

definition only_stick :: "query \<Rightarrow> stick_query \<Rightarrow> int \<Rightarrow> event" where
  "only_stick q d v = \<lparr> event_value = v, holds = (\<lambda>p. p = q), stick = (\<lambda>p. p = d) \<rparr>"

section \<open>Properties of \<^verbatim>\<open>_handle_event\<close>\<close>

subsection \<open>The chain and the branch taken\<close>

lemmas chain_defs = apply_event_def set_state_def append_history_def

lemma find_Cons_Some:
  "find P (x # xs) = Some y \<longleftrightarrow> (P x \<and> x = y) \<or> (\<not> P x \<and> find P xs = Some y)"
  by auto

lemma find_Cons_None: "find P (x # xs) = None \<longleftrightarrow> \<not> P x \<and> find P xs = None"
  by auto

lemmas dispatch_defs = dispatch_def dispatch_order_def find_Cons_Some find_Cons_None

lemma apply_event_no_match: "dispatch e = None \<Longrightarrow> apply_event e c = c"
  by (simp add: dispatch_defs chain_defs del: find.simps(2))

lemma release_history:
  "dispatch e = Some q \<Longrightarrow> q \<in> set release_queries \<Longrightarrow>
     event_history (apply_event e c) = event_history c"
  by (cases q) (simp_all add: release_queries_def dispatch_defs chain_defs del: find.simps(2))

lemma other_history:
  "dispatch e = Some q \<Longrightarrow> q \<notin> set release_queries \<Longrightarrow>
     \<exists>l \<in> set (category_labels (category_of q)).
        event_history (apply_event e c) = event_history c @ [l]"
  by (cases q)
     (simp_all add: release_queries_def dispatch_defs chain_defs Let_def del: find.simps(2))

lemma no_assignment_state:
  "dispatch e = Some q \<Longrightarrow> \<not> assigns_field e q \<Longrightarrow> state (apply_event e c) = state c"
  by (cases q) (simp_all add: assigns_field_def dispatch_defs chain_defs Let_def del: find.simps(2))

lemma dispatch_only: "dispatch (only q v) = Some q"
  by (cases q) (simp_all add: only_def dispatch_defs del: find.simps(2))

lemma dispatch_only_stick: "dispatch (only_stick q d v) = Some q"
  by (cases q) (simp_all add: only_stick_def dispatch_defs del: find.simps(2))

lemma changed_fields_Nil: "changed_fields s s' = [] \<longleftrightarrow> s = s'"
  by (cases s; cases s') (simp add: changed_fields_def)

subsection \<open>Labels in the history\<close>

text \<open>
  Claim C2, as the specification states it: every recognized transition that sets a
  field of the snapshot appends exactly one label to the history. The chain does not do
  that for releases. Here the circle button is down, the event is the release of the
  circle button: the flag goes from true to false and the history stays as it was.
\<close>

theorem release_appends_no_label_counterexample:
  "circle_button (state (set_state (\<lambda>s. s\<lparr>circle_button := True\<rparr>) Controller_init)) \<and>
   \<not> circle_button (state (apply_event (only circle_released 0)
        (set_state (\<lambda>s. s\<lparr>circle_button := True\<rparr>) Controller_init))) \<and>
   event_history (apply_event (only circle_released 0)
        (set_state (\<lambda>s. s\<lparr>circle_button := True\<rparr>) Controller_init)) =
   event_history (set_state (\<lambda>s. s\<lparr>circle_button := True\<rparr>) Controller_init)"
  by (simp add: only_def chain_defs Controller_init_def ControllerState_init_def)

text \<open>
  Claim C2, amended: an event that matches no question of the chain leaves the whole
  controller, snapshot and history, as it is. An event that decodes to a release (of a
  button, of a trigger, or one of the two combined arrow releases) appends nothing to
  the history. An event that decodes to any other question and assigns a field of the
  snapshot (a press of a button, trigger or arrow, or a stick event that assigns an
  axis) appends exactly one label, a label of the category of its branch.
\<close>

theorem history_label_by_branch:
  "(dispatch e = None \<longrightarrow> apply_event e c = c) \<and>
   (\<forall>q. dispatch e = Some q \<and> q \<in> set release_queries \<longrightarrow>
        event_history (apply_event e c) = event_history c) \<and>
   (\<forall>q. dispatch e = Some q \<and> q \<notin> set release_queries \<and> assigns_field e q \<longrightarrow>
        (\<exists>l \<in> set (category_labels (category_of q)).
            event_history (apply_event e c) = event_history c @ [l]))"
  using apply_event_no_match release_history other_history by blast

text \<open>
  A press of the circle button and a left-stick event that moves the stick up append one
  label each; a release of the circle button appends none.
\<close>

theorem history_label_by_branch_witness:
  "dispatch (only circle_pressed 0) = Some circle_pressed \<and>
   circle_pressed \<notin> set release_queries \<and>
   assigns_field (only circle_pressed 0) circle_pressed \<and>
   event_history (apply_event (only circle_pressed 0) Controller_init) = [''circle''] \<and>
   dispatch (only_stick L3_event L3_up 500) = Some L3_event \<and>
   L3_event \<notin> set release_queries \<and>
   assigns_field (only_stick L3_event L3_up 500) L3_event \<and>
   L3_y_axis (state (apply_event (only_stick L3_event L3_up 500) Controller_init)) = 500 \<and>
   event_history (apply_event (only_stick L3_event L3_up 500) Controller_init) =
     [''left_joystick''] \<and>
   dispatch (only circle_released 0) = Some circle_released \<and>
   circle_released \<in> set release_queries \<and>
   event_history (apply_event (only circle_released 0) Controller_init) = []"
  using history_label_by_branch [of "only circle_pressed 0" Controller_init]
    history_label_by_branch [of "only_stick L3_event L3_up 500" Controller_init]
    history_label_by_branch [of "only circle_released 0" Controller_init]
  by (simp add: only_def only_stick_def dispatch_defs release_queries_def chain_defs
      assigns_field_def Controller_init_def ControllerState_init_def del: find.simps(2))

subsection \<open>Directional pad\<close>

text \<open>
  Claim C3: an event that decodes to the combined left+right release sets both the left
  and the right flag to false, whatever they were; likewise the combined up+down release
  and the two vertical flags. An event that decodes to the press of one direction sets
  that flag to true and nothing else in the snapshot. No event clears one direction
  alone: when a direction flag is true before an event and false after it, the event
  decodes to the combined release of that axis (which clears both flags).
\<close>

theorem directional_pad:
  "(dispatch e = Some left_right_arrow_released \<longrightarrow>
      state (apply_event e c) = (state c)\<lparr>left_arrow := False, right_arrow := False\<rparr>) \<and>
   (dispatch e = Some up_down_arrow_released \<longrightarrow>
      state (apply_event e c) = (state c)\<lparr>up_arrow := False, down_arrow := False\<rparr>) \<and>
   (dispatch e = Some left_arrow_pressed \<longrightarrow>
      state (apply_event e c) = (state c)\<lparr>left_arrow := True\<rparr>) \<and>
   (dispatch e = Some right_arrow_pressed \<longrightarrow>
      state (apply_event e c) = (state c)\<lparr>right_arrow := True\<rparr>) \<and>
   (dispatch e = Some up_arrow_pressed \<longrightarrow>
      state (apply_event e c) = (state c)\<lparr>up_arrow := True\<rparr>) \<and>
   (dispatch e = Some down_arrow_pressed \<longrightarrow>
      state (apply_event e c) = (state c)\<lparr>down_arrow := True\<rparr>) \<and>
   (left_arrow (state c) \<and> \<not> left_arrow (state (apply_event e c)) \<or>
    right_arrow (state c) \<and> \<not> right_arrow (state (apply_event e c)) \<longrightarrow>
      dispatch e = Some left_right_arrow_released) \<and>
   (up_arrow (state c) \<and> \<not> up_arrow (state (apply_event e c)) \<or>
    down_arrow (state c) \<and> \<not> down_arrow (state (apply_event e c)) \<longrightarrow>
      dispatch e = Some up_down_arrow_released)"
proof -
  have cleared:
    "(left_arrow (state c) \<and> \<not> left_arrow (state (apply_event e c)) \<or>
      right_arrow (state c) \<and> \<not> right_arrow (state (apply_event e c)) \<longrightarrow>
        dispatch e = Some left_right_arrow_released) \<and>
     (up_arrow (state c) \<and> \<not> up_arrow (state (apply_event e c)) \<or>
      down_arrow (state c) \<and> \<not> down_arrow (state (apply_event e c)) \<longrightarrow>
        dispatch e = Some up_down_arrow_released)"
  proof (cases "dispatch e")
    case None
    then show ?thesis by (simp add: apply_event_no_match)
  next
    case (Some q)
    then show ?thesis
      by (cases q) (simp_all add: dispatch_defs chain_defs Let_def del: find.simps(2))
  qed
  have branches:
    "(dispatch e = Some left_right_arrow_released \<longrightarrow>
        state (apply_event e c) = (state c)\<lparr>left_arrow := False, right_arrow := False\<rparr>) \<and>
     (dispatch e = Some up_down_arrow_released \<longrightarrow>
        state (apply_event e c) = (state c)\<lparr>up_arrow := False, down_arrow := False\<rparr>) \<and>
     (dispatch e = Some left_arrow_pressed \<longrightarrow>
        state (apply_event e c) = (state c)\<lparr>left_arrow := True\<rparr>) \<and>
     (dispatch e = Some right_arrow_pressed \<longrightarrow>
        state (apply_event e c) = (state c)\<lparr>right_arrow := True\<rparr>) \<and>
     (dispatch e = Some up_arrow_pressed \<longrightarrow>
        state (apply_event e c) = (state c)\<lparr>up_arrow := True\<rparr>) \<and>
     (dispatch e = Some down_arrow_pressed \<longrightarrow>
        state (apply_event e c) = (state c)\<lparr>down_arrow := True\<rparr>)"
    by (simp add: dispatch_defs chain_defs del: find.simps(2))
  from branches cleared show ?thesis by blast
qed

text \<open>
  Only the right flag is set before the combined release; both flags are false after it.
  A press of left on the initial snapshot sets the left flag and leaves the rest.
\<close>

theorem directional_pad_witness:
  "dispatch (only left_right_arrow_released 0) = Some left_right_arrow_released \<and>
   \<not> left_arrow (state (set_state (\<lambda>s. s\<lparr>right_arrow := True\<rparr>) Controller_init)) \<and>
   right_arrow (state (set_state (\<lambda>s. s\<lparr>right_arrow := True\<rparr>) Controller_init)) \<and>
   state (apply_event (only left_right_arrow_released 0)
            (set_state (\<lambda>s. s\<lparr>right_arrow := True\<rparr>) Controller_init)) =
     ControllerState_init \<and>
   dispatch (only left_arrow_pressed 0) = Some left_arrow_pressed \<and>
   state (apply_event (only left_arrow_pressed 0) Controller_init) =
     ControllerState_init\<lparr>left_arrow := True\<rparr>"
  using directional_pad [of "only left_right_arrow_released 0"
      "set_state (\<lambda>s. s\<lparr>right_arrow := True\<rparr>) Controller_init"]
    directional_pad [of "only left_arrow_pressed 0" Controller_init]
  by (simp add: only_def only_stick_def dispatch_defs release_queries_def chain_defs
      Controller_init_def ControllerState_init_def del: find.simps(2))

subsection \<open>Triggers and sticks\<close>

text \<open>
  Claim C4: from every snapshot, an event that decodes to the release of R2 leaves the
  field R2 at the rest value -32767 (not 0), one that decodes to the release of L2
  leaves L2 at -32767, and one that decodes to the press of L2 or of R2 leaves in that
  field the value of the event.
\<close>

theorem trigger_rest_and_value:
  "(dispatch e = Some R2_released \<longrightarrow>
      R2_button (state (apply_event e c)) = - 32767 \<and>
      R2_button (state (apply_event e c)) \<noteq> 0) \<and>
   (dispatch e = Some L2_released \<longrightarrow> L2_button (state (apply_event e c)) = - 32767) \<and>
   (dispatch e = Some L2_pressed \<longrightarrow> L2_button (state (apply_event e c)) = event_value e) \<and>
   (dispatch e = Some R2_pressed \<longrightarrow> R2_button (state (apply_event e c)) = event_value e)"
  by (simp add: dispatch_defs chain_defs del: find.simps(2))

theorem trigger_rest_and_value_witness:
  "dispatch (only R2_pressed 12000) = Some R2_pressed \<and>
   R2_button (state (apply_event (only R2_pressed 12000) Controller_init)) = 12000 \<and>
   dispatch (only R2_released 0) = Some R2_released \<and>
   R2_button (state (apply_event (only R2_released 0)
       (apply_event (only R2_pressed 12000) Controller_init))) = - 32767"
  using trigger_rest_and_value [of "only R2_pressed 12000" Controller_init]
    trigger_rest_and_value [of "only R2_released 0"
      "apply_event (only R2_pressed 12000) Controller_init"]
  by (simp add: only_def only_stick_def dispatch_defs release_queries_def chain_defs
      Controller_init_def ControllerState_init_def del: find.simps(2))

text \<open>
  Claim C5: from every snapshot, a left-stick event whose y axis is at rest sets the
  y axis of the left stick to 0 and leaves its x axis (and every other field) as it
  was; a left-stick event whose x axis is at rest (and whose y axis is not) sets the
  x axis to 0 and leaves the y axis as it was.
\<close>

theorem stick_rest:
  "(dispatch e = Some L3_event \<and> stick e L3_y_at_rest \<longrightarrow>
      L3_y_axis (state (apply_event e c)) = 0 \<and>
      L3_x_axis (state (apply_event e c)) = L3_x_axis (state c) \<and>
      state (apply_event e c) = (state c)\<lparr>L3_y_axis := 0\<rparr>) \<and>
   (dispatch e = Some L3_event \<and> \<not> stick e L3_y_at_rest \<and> stick e L3_x_at_rest \<longrightarrow>
      L3_x_axis (state (apply_event e c)) = 0 \<and>
      L3_y_axis (state (apply_event e c)) = L3_y_axis (state c) \<and>
      state (apply_event e c) = (state c)\<lparr>L3_x_axis := 0\<rparr>)"
  by (simp add: dispatch_defs chain_defs del: find.simps(2))

theorem stick_rest_witness:
  "dispatch (only_stick L3_event L3_y_at_rest 0) = Some L3_event \<and>
   stick (only_stick L3_event L3_y_at_rest 0) L3_y_at_rest \<and>
   state (apply_event (only_stick L3_event L3_y_at_rest 0)
      (set_state (\<lambda>s. s\<lparr>L3_x_axis := 7, L3_y_axis := 9\<rparr>) Controller_init)) =
     ControllerState_init\<lparr>L3_x_axis := 7\<rparr> \<and>
   dispatch (only_stick L3_event L3_x_at_rest 0) = Some L3_event \<and>
   \<not> stick (only_stick L3_event L3_x_at_rest 0) L3_y_at_rest \<and>
   stick (only_stick L3_event L3_x_at_rest 0) L3_x_at_rest \<and>
   state (apply_event (only_stick L3_event L3_x_at_rest 0)
      (set_state (\<lambda>s. s\<lparr>L3_x_axis := 7, L3_y_axis := 9\<rparr>) Controller_init)) =
     ControllerState_init\<lparr>L3_y_axis := 9\<rparr>"
  using stick_rest [of "only_stick L3_event L3_y_at_rest 0"
      "set_state (\<lambda>s. s\<lparr>L3_x_axis := 7, L3_y_axis := 9\<rparr>) Controller_init"]
    stick_rest [of "only_stick L3_event L3_x_at_rest 0"
      "set_state (\<lambda>s. s\<lparr>L3_x_axis := 7, L3_y_axis := 9\<rparr>) Controller_init"]
  by (simp add: only_def only_stick_def dispatch_defs release_queries_def chain_defs
      Controller_init_def ControllerState_init_def del: find.simps(2))

subsection \<open>Releases and the frame of an event\<close>

text \<open>
  Claim C8: for every digital button that has a release event, and every snapshot in
  which the flag of that button is already false, the release event of the button
  leaves every field of the snapshot as it was (and the history as well).
\<close>

theorem release_idempotent:
  "dispatch e = Some q \<Longrightarrow> released_flag q = Some flag \<Longrightarrow> \<not> flag (state c) \<Longrightarrow>
     state (apply_event e c) = state c \<and> event_history (apply_event e c) = event_history c"
  by (cases q) (simp_all add: dispatch_defs chain_defs del: find.simps(2))

theorem release_idempotent_witness:
  "dispatch (only circle_released 0) = Some circle_released \<and>
   released_flag circle_released = Some circle_button \<and>
   \<not> circle_button (state Controller_init) \<and>
   state (apply_event (only circle_released 0) Controller_init) = state Controller_init"
  using release_idempotent [of "only circle_released 0" circle_released circle_button
      Controller_init]
  by (simp add: only_def dispatch_defs chain_defs
      Controller_init_def ControllerState_init_def del: find.simps(2))

text \<open>
  Claim C10: an event that matches no question leaves the snapshot as it is. For an
  event that decodes to a question, the fields of the snapshot that differ afterwards
  all belong to the category of that question; at most one field differs, unless the
  event decodes to one of the two combined arrow releases, which assign exactly the two
  flags of their axis.
\<close>

theorem event_frame:
  "(dispatch e = None \<longrightarrow> state (apply_event e c) = state c) \<and>
   (\<forall>q. dispatch e = Some q \<longrightarrow>
      set (changed_fields (state c) (state (apply_event e c)))
        \<subseteq> set (category_fields (category_of q)) \<and>
      (q \<noteq> left_right_arrow_released \<and> q \<noteq> up_down_arrow_released \<longrightarrow>
         length (changed_fields (state c) (state (apply_event e c))) \<le> 1) \<and>
      (q = left_right_arrow_released \<longrightarrow>
         state (apply_event e c) = (state c)\<lparr>left_arrow := False, right_arrow := False\<rparr>) \<and>
      (q = up_down_arrow_released \<longrightarrow>
         state (apply_event e c) = (state c)\<lparr>up_arrow := False, down_arrow := False\<rparr>))"
proof (intro conjI allI impI)
  assume "dispatch e = None"
  then show "state (apply_event e c) = state c" by (simp add: apply_event_no_match)
next
  fix q assume "dispatch e = Some q"
  then show "set (changed_fields (state c) (state (apply_event e c)))
      \<subseteq> set (category_fields (category_of q))"
    by (cases q)
       (simp_all add: dispatch_defs chain_defs changed_fields_def Let_def del: find.simps(2))
next
  fix q assume "dispatch e = Some q"
    and "q \<noteq> left_right_arrow_released \<and> q \<noteq> up_down_arrow_released"
  then show "length (changed_fields (state c) (state (apply_event e c))) \<le> 1"
    by (cases q)
       (simp_all add: dispatch_defs chain_defs changed_fields_def Let_def del: find.simps(2))
next
  fix q assume "dispatch e = Some q" and "q = left_right_arrow_released"
  then show "state (apply_event e c) = (state c)\<lparr>left_arrow := False, right_arrow := False\<rparr>"
    by (simp add: dispatch_defs chain_defs del: find.simps(2))
next
  fix q assume "dispatch e = Some q" and "q = up_down_arrow_released"
  then show "state (apply_event e c) = (state c)\<lparr>up_arrow := False, down_arrow := False\<rparr>"
    by (simp add: dispatch_defs chain_defs del: find.simps(2))
qed

text \<open>
  With both horizontal flags set, the combined release changes exactly these two
  fields; the press of the circle button changes one field, of the digital buttons.
\<close>

theorem event_frame_witness:
  "dispatch (only left_right_arrow_released 0) = Some left_right_arrow_released \<and>
   changed_fields
     (state (set_state (\<lambda>s. s\<lparr>left_arrow := True, right_arrow := True\<rparr>) Controller_init))
     (state (apply_event (only left_right_arrow_released 0)
        (set_state (\<lambda>s. s\<lparr>left_arrow := True, right_arrow := True\<rparr>) Controller_init))) =
     [F_left_arrow, F_right_arrow] \<and>
   dispatch (only circle_pressed 0) = Some circle_pressed \<and>
   circle_pressed \<noteq> left_right_arrow_released \<and> circle_pressed \<noteq> up_down_arrow_released \<and>
   changed_fields (state Controller_init)
     (state (apply_event (only circle_pressed 0) Controller_init)) = [F_circle_button] \<and>
   F_circle_button \<in> set (category_fields (category_of circle_pressed))"
  using event_frame [of "only left_right_arrow_released 0"
      "set_state (\<lambda>s. s\<lparr>left_arrow := True, right_arrow := True\<rparr>) Controller_init"]
    event_frame [of "only circle_pressed 0" Controller_init]
  by (simp add: only_def dispatch_defs chain_defs changed_fields_def
      Controller_init_def ControllerState_init_def del: find.simps(2))

section \<open>Properties of \<^verbatim>\<open>listen\<close>\<close>

subsection \<open>What an event leaves alone\<close>

lemma apply_event_frame:
  "stop (apply_event e c) = stop c"
  "is_connected (apply_event e c) = is_connected c"
  "debug (apply_event e c) = debug c"
  "event_size (apply_event e c) = event_size c"
  "state_queue (apply_event e c) = state_queue c"
  by (simp_all add: chain_defs Let_def)

lemma handle_event_frame:
  "stop (handle_event ed i ty v ov c) = stop c"
  "is_connected (handle_event ed i ty v ov c) = is_connected c"
  "debug (handle_event ed i ty v ov c) = debug c"
  "event_size (handle_event ed i ty v ov c) = event_size c"
  "state_queue (handle_event ed i ty v ov c) = state_queue c"
  by (simp_all add: handle_event_def apply_event_frame)

lemma label_category_unique:
  "l \<in> set (category_labels g) \<Longrightarrow> l \<in> set (category_labels g') \<Longrightarrow> g = g'"
  by (cases g; cases g') auto

lemma known_labelI: "l \<in> set (category_labels g) \<Longrightarrow> \<exists>!g. l \<in> set (category_labels g)"
  using label_category_unique by blast

lemma apply_event_history:
  "\<exists>ls. event_history (apply_event e c) = event_history c @ ls \<and> length ls \<le> 1 \<and>
        (\<forall>l \<in> set ls. \<exists>!g. l \<in> set (category_labels g))"
proof (cases "dispatch e")
  case None
  then show ?thesis by (simp add: apply_event_no_match)
next
  case (Some q)
  show ?thesis
  proof (cases "q \<in> set release_queries")
    case True
    with Some show ?thesis by (simp add: release_history)
  next
    case False
    from other_history [OF Some False, of c] obtain l
      where "l \<in> set (category_labels (category_of q))"
        and "event_history (apply_event e c) = event_history c @ [l]" by blast
    then show ?thesis using known_labelI by auto
  qed
qed

lemma handle_event_history:
  "\<exists>ls. event_history (handle_event ed i ty v ov c) = event_history c @ ls \<and> length ls \<le> 1 \<and>
        (\<forall>l \<in> set ls. \<exists>!g. l \<in> set (category_labels g))"
  unfolding handle_event_def by (rule apply_event_history)

lemma queue_put_frame:
  "stop (queue_put c) = stop c"
  "is_connected (queue_put c) = is_connected c"
  "event_size (queue_put c) = event_size c"
  "event_history (queue_put c) = event_history c"
  "state (queue_put c) = state c"
  "state_queue (queue_put c) = state_queue c @ [True]"
  by (simp_all add: queue_put_def)

subsection \<open>Waiting for the interface\<close>

lemma wait_loop_found:
  "k < n \<Longrightarrow> ex (i + k) \<Longrightarrow> (\<forall>j<k. \<not> ex (i + j)) \<Longrightarrow>
     wait_loop ex i n c =
       (True, on_connect_callback c, concat (replicate k [PathExists, Sleep]) @ [PathExists])"
proof (induction k arbitrary: i n)
  case 0
  then obtain m where "n = Suc m" by (cases n) auto
  with 0 show ?case by simp
next
  case (Suc k)
  then obtain m where n: "n = Suc m" by (cases n) auto
  from Suc.prems have "\<not> ex i" by (metis add.right_neutral zero_less_Suc)
  moreover have "wait_loop ex (Suc i) m c =
       (True, on_connect_callback c, concat (replicate k [PathExists, Sleep]) @ [PathExists])"
  proof (rule Suc.IH)
    show "k < m" using Suc.prems n by simp
    show "ex (Suc i + k)" using Suc.prems by simp
    show "\<forall>j<k. \<not> ex (Suc i + j)" using Suc.prems(3) by (metis Suc_less_eq add_Suc_shift)
  qed
  ultimately show ?case using n by simp
qed

lemma wait_loop_never:
  "(\<forall>j<n. \<not> ex (i + j)) \<Longrightarrow>
     wait_loop ex i n c =
       (False, on_disconnect_callback c, concat (replicate n [PathExists, Sleep]))"
proof (induction n arbitrary: i)
  case 0
  show ?case by simp
next
  case (Suc n)
  have "\<not> ex i" using Suc.prems by (metis add.right_neutral zero_less_Suc)
  moreover have "wait_loop ex (Suc i) n c =
       (False, on_disconnect_callback c, concat (replicate n [PathExists, Sleep]))"
    by (rule Suc.IH) (metis Suc.prems Suc_less_eq add_Suc_shift)
  ultimately show ?case by simp
qed

lemma wait_loop_controller:
  "wait_loop ex i n c = (found, c', t) \<Longrightarrow>
     c' = c\<lparr>is_connected := found\<rparr> \<and> set t \<subseteq> {PathExists, Sleep}"
proof (induction n arbitrary: i found c' t)
  case 0
  then show ?case by (auto simp: on_disconnect_callback_def)
next
  case (Suc n)
  show ?case
  proof (cases "ex i")
    case True
    with Suc.prems show ?thesis by (auto simp: on_connect_callback_def)
  next
    case False
    obtain f1 c1 t1 where r: "wait_loop ex (Suc i) n c = (f1, c1, t1)"
      by (cases "wait_loop ex (Suc i) n c") auto
    from Suc.IH [OF r] have "c1 = c\<lparr>is_connected := f1\<rparr>" and "set t1 \<subseteq> {PathExists, Sleep}"
      by simp_all
    moreover from Suc.prems False r have "found = f1" "c' = c1" "t = PathExists # Sleep # t1"
      by simp_all
    ultimately show ?thesis by simp
  qed
qed

lemma wait_loop_found_iff: "fst (wait_loop ex i n c) \<longleftrightarrow> (\<exists>j<n. ex (i + j))"
proof (cases "\<exists>j<n. ex (i + j)")
  case True
  define k where "k = (LEAST j. j < n \<and> ex (i + j))"
  from True have "k < n \<and> ex (i + k)" unfolding k_def by (rule LeastI_ex)
  moreover have "\<forall>j<k. \<not> ex (i + j)"
  proof (intro allI impI notI)
    fix j assume "j < k" and "ex (i + j)"
    moreover from \<open>j < k\<close> \<open>k < n \<and> ex (i + k)\<close> have "j < n" by simp
    ultimately show False unfolding k_def using not_less_Least by blast
  qed
  ultimately show ?thesis using True wait_loop_found [of k n ex i c] by simp
next
  case False
  then show ?thesis using wait_loop_never [of n ex i c] by simp
qed

subsection \<open>The read loop\<close>

lemma round_effects_Suc: "Read # HandleEvent # QueuePut # round_effects k = round_effects (Suc k)"
  by (simp add: round_effects_def)

lemma read_loop_shape:
  "read_loop ed rs c = (out, c', t) \<Longrightarrow>
     \<exists>k \<le> length rs. t = round_effects k \<and>
        state_queue c' = state_queue c @ replicate k True \<and>
        stop c' = stop c \<and> is_connected c' = is_connected c \<and> event_size c' = event_size c \<and>
        (\<exists>ls. event_history c' = event_history c @ ls \<and> length ls \<le> k \<and>
              (\<forall>l \<in> set ls. \<exists>!g. l \<in> set (category_labels g)))"
proof (induction rs arbitrary: c out c' t)
  case Nil
  then show ?case by (auto simp: round_effects_def)
next
  case (Cons r rs)
  have stopped: ?case if "c' = c" "t = [Read]"
    using that by (intro exI [of _ 0]) (simp add: round_effects_def)
  show ?case
  proof (cases r)
    case Interrupt
    with Cons.prems show ?thesis by (intro stopped) simp_all
  next
    case ReadError
    with Cons.prems show ?thesis by (intro stopped) simp_all
  next
    case (Data bs)
    show ?thesis
    proof (cases "stop c \<or> take (event_size c) bs = []")
      case True
      with Cons.prems Data show ?thesis by (intro stopped) (simp_all add: Let_def)
    next
      case False
      show ?thesis
      proof (cases "unpack_event (take (event_size c) bs)")
        case (Inl err)
        with Cons.prems Data False show ?thesis by (intro stopped) (simp_all add: Let_def)
      next
        case (Inr u)
        obtain ov v ty i where u: "u = (ov, v, ty, i)" by (cases u) auto
        define c2 where "c2 = queue_put (handle_event ed i ty v ov c)"
        obtain out1 c1 t1 where r: "read_loop ed rs c2 = (out1, c1, t1)"
          by (cases "read_loop ed rs c2") auto
        from Cons.prems Data False Inr u r
        have res: "out = out1" "c' = c1" "t = Read # HandleEvent # QueuePut # t1"
          by (simp_all add: Let_def c2_def)
        from Cons.IH [OF r] obtain k ls where k: "k \<le> length rs" "t1 = round_effects k"
          "state_queue c1 = state_queue c2 @ replicate k True"
          "stop c1 = stop c2" "is_connected c1 = is_connected c2" "event_size c1 = event_size c2"
          "event_history c1 = event_history c2 @ ls" "length ls \<le> k"
          "\<forall>l \<in> set ls. \<exists>!g. l \<in> set (category_labels g)"
          by blast
        from handle_event_history [of ed i ty v ov c] obtain ls0 where
          ls0: "event_history c2 = event_history c @ ls0" "length ls0 \<le> 1"
            "\<forall>l \<in> set ls0. \<exists>!g. l \<in> set (category_labels g)"
          by (auto simp: c2_def queue_put_frame)
        have "Suc k \<le> length (r # rs)" using k(1) by simp
        moreover have "t = round_effects (Suc k)"
          using res k(2) by (simp add: round_effects_Suc)
        moreover have "state_queue c' = state_queue c @ replicate (Suc k) True"
          using res k(3) by (simp add: c2_def queue_put_frame handle_event_frame replicate_app_Cons_same)
        moreover have "stop c' = stop c" "is_connected c' = is_connected c" "event_size c' = event_size c"
          using res k(4-6) by (simp_all add: c2_def queue_put_frame handle_event_frame)
        moreover have "event_history c' = event_history c @ (ls0 @ ls)"
          using res k(7) ls0(1) by simp
        moreover have "length (ls0 @ ls) \<le> Suc k" using k(8) ls0(2) by simp
        moreover have "\<forall>l \<in> set (ls0 @ ls). \<exists>!g. l \<in> set (category_labels g)"
          using k(9) ls0(3) by auto
        ultimately show ?thesis by blast
      qed
    qed
  qed
qed

lemma read_loop_full:
  "\<forall>r \<in> set rs. \<exists>bs. r = Data bs \<and> length bs = 8 \<Longrightarrow> \<not> stop c \<Longrightarrow> event_size c = 8 \<Longrightarrow>
     \<exists>c'. read_loop ed rs c = (Returned, c', round_effects (length rs))"
proof (induction rs arbitrary: c)
  case Nil
  show ?case by (simp add: round_effects_def)
next
  case (Cons r rs)
  from Cons.prems(1) obtain bs where r: "r = Data bs" and len: "length bs = 8" by auto
  from len obtain B0 B1 B2 pad h0 h1 b0 b1 where bs: "bs = [B0, B1, B2, pad, h0, h1, b0, b1]"
    by (auto simp: length_Suc_conv eval_nat_numeral)
  define c2 where "c2 = queue_put (handle_event ed (uint B0) (uint B1) (uint B2)
      (int16_le h0 h1, sint b0, sint b1) c)"
  have "\<not> stop c2" "event_size c2 = 8"
    using Cons.prems(2,3) by (simp_all add: c2_def queue_put_frame handle_event_frame)
  with Cons.IH [of c2] Cons.prems(1) obtain c' where
    "read_loop ed rs c2 = (Returned, c', round_effects (length rs))" by auto
  then show ?case
    using Cons.prems(2,3) by (simp add: r bs unpack_event_def c2_def Let_def round_effects_Suc)
qed

lemma filter_round_effects:
  "filter (\<lambda>a. a = HandleEvent \<or> a = QueuePut) (round_effects k) =
     concat (replicate k [HandleEvent, QueuePut])"
  by (induction k) (simp_all add: round_effects_def)

lemma count_round_effects: "count_list (round_effects k) HandleEvent = k"
  by (induction k) (simp_all add: round_effects_def)

lemma filter_polls:
  "set t \<subseteq> {PathExists, Sleep} \<Longrightarrow> filter (\<lambda>a. a = HandleEvent \<or> a = QueuePut) t = []"
  by (auto simp: filter_empty_conv)

lemma count_polls: "set t \<subseteq> {PathExists, Sleep} \<Longrightarrow> count_list t HandleEvent = 0"
  by (rule count_notin) auto

lemma round_effects_inj: "round_effects k = round_effects n \<Longrightarrow> k = n"
  using count_round_effects by metis

lemma unpack_event_short: "length ev \<noteq> 8 \<Longrightarrow> unpack_event ev = Inl struct_error"
  by (auto simp: unpack_event_def split: list.splits)

lemma read_loop_prefix:
  "\<forall>r \<in> set rs. length r = 8 \<Longrightarrow> \<not> stop c \<Longrightarrow> event_size c = 8 \<Longrightarrow>
     \<exists>c2. \<not> stop c2 \<and> event_size c2 = 8 \<and> is_connected c2 = is_connected c \<and>
       read_loop ed (map Data rs @ rest) c =
         (case read_loop ed rest c2 of
            (out, c', t) \<Rightarrow> (out, c', concat (replicate (length rs) [Read, HandleEvent, QueuePut]) @ t))"
proof (induction rs arbitrary: c)
  case Nil
  then show ?case by (intro exI [of _ c]) (simp split: prod.splits)
next
  case (Cons bs rs)
  from Cons.prems(1) have len: "length bs = 8" by simp
  then obtain B0 B1 B2 pad h0 h1 b0 b1 where bs: "bs = [B0, B1, B2, pad, h0, h1, b0, b1]"
    by (auto simp: length_Suc_conv eval_nat_numeral)
  define c1 where "c1 = queue_put (handle_event ed (uint B0) (uint B1) (uint B2)
      (int16_le h0 h1, sint b0, sint b1) c)"
  have c1: "\<not> stop c1" "event_size c1 = 8" "is_connected c1 = is_connected c"
    using Cons.prems(2,3) by (simp_all add: c1_def queue_put_frame handle_event_frame)
  with Cons.IH [of c1] Cons.prems(1) obtain c2 where c2:
    "\<not> stop c2" "event_size c2 = 8" "is_connected c2 = is_connected c1"
    "read_loop ed (map Data rs @ rest) c1 =
       (case read_loop ed rest c2 of
          (out, c', t) \<Rightarrow> (out, c', concat (replicate (length rs) [Read, HandleEvent, QueuePut]) @ t))"
    by auto
  have "read_loop ed (map Data (bs # rs) @ rest) c =
       (case read_loop ed rest c2 of
          (out, c', t) \<Rightarrow>
            (out, c', concat (replicate (length (bs # rs)) [Read, HandleEvent, QueuePut]) @ t))"
    using Cons.prems(2,3) c2(4)
    by (simp add: bs unpack_event_def c1_def Let_def split: prod.splits)
  with c2(1-3) c1(3) show ?case by auto
qed

subsection \<open>\<^verbatim>\<open>listen\<close> as a whole\<close>

lemma listen_not_found:
  "wait_for_interface timeout w c = (False, c1, t1) \<Longrightarrow> listen ed timeout w c = (Returned, c1, t1)"
  by (simp add: listen_def)

lemma listen_not_opened:
  "wait_for_interface timeout w c = (True, c1, t1) \<Longrightarrow> \<not> open_ok w \<Longrightarrow>
     listen ed timeout w c = (Raised OSError, c1, t1 @ [Open])"
  by (simp add: listen_def)

lemma listen_opened:
  "wait_for_interface timeout w c = (True, c1, t1) \<Longrightarrow> open_ok w \<Longrightarrow>
   read_loop ed (reads w) c1 = (out2, c2, t2) \<Longrightarrow>
     listen ed timeout w c =
       (if out2 = Raised KeyboardInterrupt
        then (Returned, stop_listening (on_disconnect_callback c2), t1 @ Open # t2 @ [Close])
        else (out2, c2, t1 @ Open # t2 @ [Close]))"
  by (simp add: listen_def split: outcome.splits error.splits)

lemma listen_summary:
  assumes "listen ed timeout w c = (out, c', t)"
  shows "\<exists>k ls. k \<le> length (reads w) \<and>
           filter (\<lambda>a. a = HandleEvent \<or> a = QueuePut) t = concat (replicate k [HandleEvent, QueuePut]) \<and>
           count_list t HandleEvent = k \<and>
           state_queue c' = state_queue c @ replicate k True \<and>
           event_history c' = event_history c @ ls \<and> length ls \<le> k \<and>
           (\<forall>l \<in> set ls. \<exists>!g. l \<in> set (category_labels g))"
proof -
  obtain found c1 t1 where wait: "wait_for_interface timeout w c = (found, c1, t1)"
    by (cases "wait_for_interface timeout w c") auto
  then have c1: "c1 = c\<lparr>is_connected := found\<rparr>" and t1: "set t1 \<subseteq> {PathExists, Sleep}"
    using wait_loop_controller unfolding wait_for_interface_def by blast+
  have idle: ?thesis if "c' = c1" "t = t1 \<or> t = t1 @ [Open]"
    using that c1 t1 by (intro exI [of _ 0] exI [of _ "[]"]) (auto simp: filter_polls count_polls)
  show ?thesis
  proof (cases "found \<and> open_ok w")
    case False
    with wait assms listen_not_found [of timeout w c c1 t1 ed] listen_not_opened [of timeout w c c1 t1 ed]
    show ?thesis by (intro idle) (cases found; auto)+
  next
    case True
    obtain out2 c2 t2 where loop: "read_loop ed (reads w) c1 = (out2, c2, t2)"
      by (cases "read_loop ed (reads w) c1") auto
    from read_loop_shape [OF loop] obtain k ls where k: "k \<le> length (reads w)"
      "t2 = round_effects k" "state_queue c2 = state_queue c1 @ replicate k True"
      "event_history c2 = event_history c1 @ ls" "length ls \<le> k"
      "\<forall>l \<in> set ls. \<exists>!g. l \<in> set (category_labels g)"
      by blast
    from listen_opened [of timeout w c c1 t1 ed out2 c2 t2] wait True loop assms
    have t: "t = t1 @ Open # t2 @ [Close]"
      and c': "c' = c2 \<or> c' = stop_listening (on_disconnect_callback c2)"
      by (auto split: if_splits)
    have "filter (\<lambda>a. a = HandleEvent \<or> a = QueuePut) t = concat (replicate k [HandleEvent, QueuePut])"
      using t t1 k(2) by (simp add: filter_polls filter_round_effects)
    moreover have "count_list t HandleEvent = k"
      using t t1 k(2) by (simp add: count_polls count_round_effects)
    moreover have "state_queue c' = state_queue c @ replicate k True"
      using c' k(3) c1 by (auto simp: stop_listening_def on_disconnect_callback_def)
    moreover have "event_history c' = event_history c @ ls"
      using c' k(4) c1 by (auto simp: stop_listening_def on_disconnect_callback_def)
    ultimately show ?thesis using k(1,5,6) by blast
  qed
qed

lemma listen_full:
  assumes "\<exists>i < nat timeout. path_exists w i" and "open_ok w" and "\<not> stop c" and "event_size c = 8"
    and "\<forall>r \<in> set (reads w). \<exists>bs. r = Data bs \<and> length bs = 8"
  shows "\<exists>c' t1. listen ed timeout w c = (Returned, c', t1 @ Open # round_effects (length (reads w)) @ [Close]) \<and>
           set t1 \<subseteq> {PathExists, Sleep} \<and> is_connected c'"
proof -
  obtain found c1 t1 where wait: "wait_for_interface timeout w c = (found, c1, t1)"
    by (cases "wait_for_interface timeout w c") auto
  then have c1: "c1 = c\<lparr>is_connected := found\<rparr>" and t1: "set t1 \<subseteq> {PathExists, Sleep}"
    using wait_loop_controller unfolding wait_for_interface_def by blast+
  have found using wait assms(1) wait_loop_found_iff [of "path_exists w" 0 "nat timeout" c]
    by (simp add: wait_for_interface_def)
  from read_loop_full [of "reads w" c1 ed] assms(3-5) c1 obtain c2 where
    loop: "read_loop ed (reads w) c1 = (Returned, c2, round_effects (length (reads w)))" by auto
  from read_loop_shape [OF loop] c1 \<open>found\<close> have "is_connected c2" by auto
  moreover from listen_opened [of timeout w c c1 t1 ed Returned c2] wait \<open>found\<close> assms(2) loop
  have "listen ed timeout w c = (Returned, c2, t1 @ Open # round_effects (length (reads w)) @ [Close])"
    by simp
  ultimately show ?thesis using t1 by blast
qed

subsection \<open>The liveness gate\<close>

text \<open>
  Claim C6: \<^verbatim>\<open>wait_for_interface\<close> asks for the path once per attempt and sleeps one unit
  after each attempt that fails, for at most \<^verbatim>\<open>timeout\<close> attempts (30 by default in
  \<^verbatim>\<open>listen\<close> and \<^verbatim>\<open>start_listening\<close>). When the path first exists at attempt number \<open>k\<close>,
  counted from 0 and below \<^verbatim>\<open>timeout\<close>, so also at the last attempt, the flag
  \<^verbatim>\<open>is_connected\<close> is set and the result is true, after \<open>k\<close> sleeps. When the path exists
  at none of the attempts, \<^verbatim>\<open>is_connected\<close> is cleared, the result is false, and \<^verbatim>\<open>listen\<close>
  returns without having opened the device file or read from it: its effects are the
  polls and the sleeps only.
\<close>

theorem liveness_gate:
  "(\<forall>k. k < nat timeout \<and> path_exists w k \<and> (\<forall>j<k. \<not> path_exists w j) \<longrightarrow>
      wait_for_interface timeout w c =
        (True, c\<lparr>is_connected := True\<rparr>, concat (replicate k [PathExists, Sleep]) @ [PathExists])) \<and>
   ((\<forall>j < nat timeout. \<not> path_exists w j) \<longrightarrow>
      wait_for_interface timeout w c =
        (False, c\<lparr>is_connected := False\<rparr>, concat (replicate (nat timeout) [PathExists, Sleep])) \<and>
      listen ed timeout w c =
        (Returned, c\<lparr>is_connected := False\<rparr>, concat (replicate (nat timeout) [PathExists, Sleep])))"
proof (intro conjI allI impI)
  fix k
  assume "k < nat timeout \<and> path_exists w k \<and> (\<forall>j<k. \<not> path_exists w j)"
  then show "wait_for_interface timeout w c =
        (True, c\<lparr>is_connected := True\<rparr>, concat (replicate k [PathExists, Sleep]) @ [PathExists])"
    using wait_loop_found [of k "nat timeout" "path_exists w" 0 c]
    by (simp add: wait_for_interface_def on_connect_callback_def)
next
  assume never: "\<forall>j < nat timeout. \<not> path_exists w j"
  then show gate: "wait_for_interface timeout w c =
        (False, c\<lparr>is_connected := False\<rparr>, concat (replicate (nat timeout) [PathExists, Sleep]))"
    using wait_loop_never [of "nat timeout" "path_exists w" 0 c]
    by (simp add: wait_for_interface_def on_disconnect_callback_def)
  then show "listen ed timeout w c =
        (Returned, c\<lparr>is_connected := False\<rparr>, concat (replicate (nat timeout) [PathExists, Sleep]))"
    by (simp add: listen_def)
qed

text \<open>
  With the default of 30 attempts the path appears at the last one; with two attempts it
  never appears.
\<close>

theorem liveness_gate_witness:
  "(29::nat) < nat 30 \<and>
   wait_for_interface 30 \<lparr>path_exists = (\<lambda>i. i = 29), open_ok = True, reads = []\<rparr>
       Controller_init =
     (True, Controller_init\<lparr>is_connected := True\<rparr>,
      concat (replicate 29 [PathExists, Sleep]) @ [PathExists]) \<and>
   listen example_mapping 2
       \<lparr>path_exists = (\<lambda>i. False), open_ok = True, reads = map Data example_records\<rparr>
       Controller_init =
     (Returned, Controller_init\<lparr>is_connected := False\<rparr>,
      [PathExists, Sleep, PathExists, Sleep])"
  using liveness_gate [of 30 "\<lparr>path_exists = (\<lambda>i. i = 29), open_ok = True, reads = []\<rparr>"
      Controller_init example_mapping]
    liveness_gate [of 2
      "\<lparr>path_exists = (\<lambda>i. False), open_ok = True, reads = map Data example_records\<rparr>"
      Controller_init example_mapping]
  by (simp add: eval_nat_numeral)

subsection \<open>One signal per record\<close>

text \<open>
  Claim C9: in every run of \<^verbatim>\<open>listen\<close>, the calls of \<^verbatim>\<open>_handle_event\<close> and of
  \<^verbatim>\<open>_state_queue.put\<close> alternate, starting with \<^verbatim>\<open>_handle_event\<close>: each processed record
  is followed by exactly one signal, put after its event has been applied, and there is
  no other signal, whatever the event did to the snapshot. The queue grows by one item
  per processed record. When the interface appears in time, the file opens, the stop
  flag is not set and the stream delivers full records only, every record is processed
  and \<^verbatim>\<open>listen\<close> returns.
\<close>

theorem one_signal_per_record:
  "case listen ed timeout w c of (out, c', t) \<Rightarrow>
     (\<exists>k. filter (\<lambda>a. a = HandleEvent \<or> a = QueuePut) t = concat (replicate k [HandleEvent, QueuePut]) \<and>
          count_list t HandleEvent = k \<and>
          state_queue c' = state_queue c @ replicate k True \<and>
          ((\<exists>i < nat timeout. path_exists w i) \<and> open_ok w \<and> \<not> stop c \<and> event_size c = 8 \<and>
           (\<forall>r \<in> set (reads w). \<exists>bs. r = Data bs \<and> length bs = 8)
             \<longrightarrow> k = length (reads w) \<and> out = Returned))"
proof -
  obtain out c' t where run: "listen ed timeout w c = (out, c', t)"
    by (cases "listen ed timeout w c") auto
  from listen_summary [OF run] obtain k where k:
    "filter (\<lambda>a. a = HandleEvent \<or> a = QueuePut) t = concat (replicate k [HandleEvent, QueuePut])"
    "count_list t HandleEvent = k" "state_queue c' = state_queue c @ replicate k True"
    by blast
  have "k = length (reads w) \<and> out = Returned"
    if "(\<exists>i < nat timeout. path_exists w i) \<and> open_ok w \<and> \<not> stop c \<and> event_size c = 8 \<and>
        (\<forall>r \<in> set (reads w). \<exists>bs. r = Data bs \<and> length bs = 8)"
  proof -
    from that listen_full [of timeout w c ed] run obtain t1 where
      "out = Returned" "t = t1 @ Open # round_effects (length (reads w)) @ [Close]"
      "set t1 \<subseteq> {PathExists, Sleep}" by auto
    then show ?thesis using k(2) by (simp add: count_polls count_round_effects)
  qed
  with k run show ?thesis by auto
qed

lemma example_run:
  "listen example_mapping 2 example_world Controller_init =
     (Returned,
      Controller_init\<lparr>is_connected := True, event_history := [''circle'', ''L2''],
        state_queue := [True, True, True, True]\<rparr>,
      [PathExists, Open,
       Read, HandleEvent, QueuePut, Read, HandleEvent, QueuePut,
       Read, HandleEvent, QueuePut, Read, HandleEvent, QueuePut, Read, Close])"
  by code_simp

theorem one_signal_per_record_witness:
  "(\<exists>i < nat 2. path_exists example_world i) \<and> open_ok example_world \<and>
   \<not> stop Controller_init \<and> event_size Controller_init = 8 \<and>
   reads example_world = map Data example_records \<and>
   map length example_records = [8, 8, 8, 8] \<and>
   length (reads example_world) = 4 \<and>
   count_list (snd (snd (listen example_mapping 2 example_world Controller_init))) HandleEvent = 4 \<and>
   state_queue (fst (snd (listen example_mapping 2 example_world Controller_init))) =
     [True, True, True, True]"
proof -
  have polled: "\<exists>i < nat 2. path_exists example_world i"
    by (intro exI [of _ 0]) (simp add: example_world_def)
  have full: "\<forall>r \<in> set (reads example_world). \<exists>bs. r = Data bs \<and> length bs = 8"
    by (simp add: example_world_def example_records_def)
  have init: "open_ok example_world" "\<not> stop Controller_init" "event_size Controller_init = 8"
    "length (reads example_world) = 4"
    by (simp_all add: example_world_def example_records_def Controller_init_def)
  from one_signal_per_record [where ed = example_mapping and timeout = 2
      and w = example_world and c = Controller_init] polled full init
  have "count_list (snd (snd (listen example_mapping 2 example_world Controller_init)))
      HandleEvent = 4"
    by (auto simp: example_run)
  moreover have "state_queue (fst (snd (listen example_mapping 2 example_world Controller_init))) =
      [True, True, True, True]"
    by (simp add: example_run)
  moreover have "reads example_world = map Data example_records"
    "map length example_records = [8, 8, 8, 8]"
    by (simp_all add: example_world_def example_records_def)
  ultimately show ?thesis using polled init by blast
qed

subsection \<open>The history of a run\<close>

text \<open>
  Claim C7: in every run of \<^verbatim>\<open>listen\<close> from the initial controller, whatever the stream
  delivers, the history is at most as long as the number of records processed (the
  number of calls of \<^verbatim>\<open>_handle_event\<close>, itself at most the number of reads that delivered
  something), and every label in the history is a label of exactly one of the five
  categories: right stick, left stick, digital buttons, triggers, directional pad.
\<close>

theorem history_bounded:
  "case listen ed timeout w Controller_init of (out, c', t) \<Rightarrow>
     length (event_history c') \<le> count_list t HandleEvent \<and>
     count_list t HandleEvent \<le> length (reads w) \<and>
     (\<forall>l \<in> set (event_history c'). \<exists>!g. l \<in> set (category_labels g))"
proof -
  obtain out c' t where run: "listen ed timeout w Controller_init = (out, c', t)"
    by (cases "listen ed timeout w Controller_init") auto
  from listen_summary [OF run] show ?thesis
    unfolding run by (auto simp: Controller_init_def)
qed

theorem history_bounded_witness:
  "event_history (fst (snd (listen example_mapping 2 example_world Controller_init))) =
     [''circle'', ''L2''] \<and>
   count_list (snd (snd (listen example_mapping 2 example_world Controller_init))) HandleEvent = 4 \<and>
   (\<exists>!g. ''circle'' \<in> set (category_labels g)) \<and>
   (\<exists>!g. ''L2'' \<in> set (category_labels g))"
  using history_bounded [where ed = example_mapping and timeout = 2 and w = example_world]
  by (simp add: example_run)

subsection \<open>Short reads\<close>

text \<open>
  Claim C1 says that every read that returns fewer bytes than a record ends the loop
  without an exception and that the connected flag is false when the pipeline exits.
  The code does this instead: after any number of full records, a read that returns
  fewer than 8 bytes ends \<^verbatim>\<open>listen\<close> normally only when it returns no byte at all; when
  it returns between 1 and 7 bytes, \<^verbatim>\<open>struct.unpack\<close> raises \<^verbatim>\<open>struct.error\<close>, which
  leaves \<^verbatim>\<open>listen\<close>. In both cases \<^verbatim>\<open>is_connected\<close> is still true afterwards:
  \<^verbatim>\<open>on_disconnect_callback\<close> is called when the wait times out and in the handler of
  \<^verbatim>\<open>KeyboardInterrupt\<close>, not when the stream ends.
\<close>

theorem short_read_outcome:
  assumes "\<exists>i < nat timeout. path_exists w i" and "open_ok w"
    and "\<not> stop c" and "event_size c = 8"
    and "reads w = map Data rs @ Data bs # rest"
    and "\<forall>r \<in> set rs. length r = 8" and "length bs < 8"
  shows "\<exists>c' t. listen ed timeout w c =
           (if bs = [] then Returned else Raised struct_error, c', t) \<and>
         is_connected c' \<and> count_list t HandleEvent = length rs"
proof -
  obtain found c1 t1 where wait: "wait_for_interface timeout w c = (found, c1, t1)"
    by (cases "wait_for_interface timeout w c") auto
  then have c1: "c1 = c\<lparr>is_connected := found\<rparr>" and t1: "set t1 \<subseteq> {PathExists, Sleep}"
    using wait_loop_controller unfolding wait_for_interface_def by blast+
  have found
    using wait assms(1) wait_loop_found_iff [of "path_exists w" 0 "nat timeout" c]
    by (simp add: wait_for_interface_def)
  have p: "\<not> stop c1" "event_size c1 = 8" "is_connected c1"
    using assms(3,4) c1 \<open>found\<close> by simp_all
  from read_loop_prefix [OF assms(6) p(1,2), of ed "Data bs # rest"]
  obtain c2 where c2: "\<not> stop c2" "event_size c2 = 8" "is_connected c2 = is_connected c1"
    "read_loop ed (map Data rs @ Data bs # rest) c1 =
       (case read_loop ed (Data bs # rest) c2 of
          (out, c', t) \<Rightarrow> (out, c', concat (replicate (length rs) [Read, HandleEvent, QueuePut]) @ t))"
    by blast
  have last: "read_loop ed (Data bs # rest) c2 =
      (if bs = [] then Returned else Raised struct_error, c2, [Read])"
    using c2(1,2) assms(7) by (simp add: unpack_event_short)
  have loop: "read_loop ed (reads w) c1 =
      (if bs = [] then Returned else Raised struct_error, c2, round_effects (length rs))"
    unfolding assms(5) c2(4) last by (simp add: round_effects_def)
  from listen_opened [OF _ assms(2) loop, of timeout c t1] wait \<open>found\<close>
  have "listen ed timeout w c =
      (if bs = [] then Returned else Raised struct_error, c2,
       t1 @ Open # round_effects (length rs) @ [Close])"
    by simp
  moreover have "count_list (t1 @ Open # round_effects (length rs) @ [Close]) HandleEvent = length rs"
    using t1 by (simp add: count_polls count_round_effects)
  ultimately show ?thesis using c2(3) p(3) by blast
qed

text \<open>
  Three full records, then the end of the stream: \<^verbatim>\<open>listen\<close> returns and the flag is
  true. Three full records, then three bytes: \<^verbatim>\<open>struct.error\<close>, and the flag is true.
\<close>

theorem short_read_outcome_witness:
  "listen example_mapping 30
       \<lparr>path_exists = (\<lambda>i. True), open_ok = True,
        reads = map Data (take 3 example_records) @ Data [] # []\<rparr> Controller_init =
     (Returned,
      Controller_init\<lparr>is_connected := True, event_history := [''circle'', ''L2''],
        state := ControllerState_init\<lparr>L2_button := 12000\<rparr>,
        state_queue := [True, True, True]\<rparr>,
      [PathExists, Open, Read, HandleEvent, QueuePut, Read, HandleEvent, QueuePut,
       Read, HandleEvent, QueuePut, Read, Close]) \<and>
   listen example_mapping 30
       \<lparr>path_exists = (\<lambda>i. True), open_ok = True,
        reads = map Data (take 3 example_records) @ Data [2, 0, 0] # []\<rparr> Controller_init =
     (Raised struct_error,
      Controller_init\<lparr>is_connected := True, event_history := [''circle'', ''L2''],
        state := ControllerState_init\<lparr>L2_button := 12000\<rparr>,
        state_queue := [True, True, True]\<rparr>,
      [PathExists, Open, Read, HandleEvent, QueuePut, Read, HandleEvent, QueuePut,
       Read, HandleEvent, QueuePut, Read, Close])"
proof -
  have zero: "listen example_mapping 30
       \<lparr>path_exists = (\<lambda>i. True), open_ok = True,
        reads = map Data (take 3 example_records) @ Data [] # []\<rparr> Controller_init =
     (Returned,
      Controller_init\<lparr>is_connected := True, event_history := [''circle'', ''L2''],
        state := ControllerState_init\<lparr>L2_button := 12000\<rparr>,
        state_queue := [True, True, True]\<rparr>,
      [PathExists, Open, Read, HandleEvent, QueuePut, Read, HandleEvent, QueuePut,
       Read, HandleEvent, QueuePut, Read, Close])"
    by code_simp
  have torn: "listen example_mapping 30
       \<lparr>path_exists = (\<lambda>i. True), open_ok = True,
        reads = map Data (take 3 example_records) @ Data [2, 0, 0] # []\<rparr> Controller_init =
     (Raised struct_error,
      Controller_init\<lparr>is_connected := True, event_history := [''circle'', ''L2''],
        state := ControllerState_init\<lparr>L2_button := 12000\<rparr>,
        state_queue := [True, True, True]\<rparr>,
      [PathExists, Open, Read, HandleEvent, QueuePut, Read, HandleEvent, QueuePut,
       Read, HandleEvent, QueuePut, Read, Close])"
    by code_simp
  have len: "\<forall>r \<in> set (take 3 example_records). length r = 8"
    by (simp add: example_records_def)
  have ex: "\<exists>i < nat 30. True" by (intro exI [of _ 0]) simp
  from short_read_outcome [of 30
      "\<lparr>path_exists = (\<lambda>i. True), open_ok = True,
        reads = map Data (take 3 example_records) @ Data [] # []\<rparr>"
      Controller_init "take 3 example_records" "[]" "[]" example_mapping] len ex
  have "is_connected (fst (snd (listen example_mapping 30
       \<lparr>path_exists = (\<lambda>i. True), open_ok = True,
        reads = map Data (take 3 example_records) @ Data [] # []\<rparr> Controller_init)))"
    by (auto simp: Controller_init_def)
  with zero torn show ?thesis by simp
qed

end
